theory Spec2Isabelle
  imports Main "HOL-Library.List_Lexorder" "HOL-Library.Char_ord"
begin

section \<open>JavaScript values used by the SDK\<close>

text \<open>
  Strings are modelled as \<open>string\<close> (ASCII code units); the default \<open>Array.prototype.sort\<close>
  on strings is the lexicographic order on code units, which is the order that
  \<open>List_Lexorder\<close> and \<open>Char_ord\<close> put on \<open>string\<close>.  A value that may be \<open>null\<close>
  or \<open>undefined\<close> is an \<open>option\<close>.  Numbers that the code uses as millisecond timestamps
  are integers or \<open>NaN\<close>.
\<close>

datatype jsnum = NaN | Num int

text \<open>JavaScript truthiness of the values the clients test with \<open>!x\<close> and \<open>x && ...\<close>.\<close>

fun truthy_str :: "string option \<Rightarrow> bool" where
  "truthy_str None = False"
| "truthy_str (Some s) = (s \<noteq> [])"

fun truthy_num :: "jsnum option \<Rightarrow> bool" where
  "truthy_num None = False"
| "truthy_num (Some NaN) = False"
| "truthy_num (Some (Num n)) = (n \<noteq> 0)"

text \<open>\<open>a >= b\<close> and \<open>a < b\<close> for a number \<open>a\<close> and a number-or-NaN \<open>b\<close>: both are false on NaN.\<close>

fun js_ge :: "int \<Rightarrow> jsnum \<Rightarrow> bool" where
  "js_ge a NaN = False"
| "js_ge a (Num b) = (a \<ge> b)"

fun js_lt :: "int \<Rightarrow> jsnum \<Rightarrow> bool" where
  "js_lt a NaN = False"
| "js_lt a (Num b) = (a < b)"

text \<open>\<open>Array.prototype.join\<close>.\<close>

fun join :: "string \<Rightarrow> string list \<Rightarrow> string" where
  "join sep [] = []"
| "join sep [x] = x"
| "join sep (x # y # ys) = x @ sep @ join sep (y # ys)"

text \<open>\<open>String.prototype.toUpperCase\<close> on ASCII text.\<close>

definition upper_char :: "char \<Rightarrow> char" where
  "upper_char c =
     (if CHR ''a'' \<le> c \<and> c \<le> CHR ''z'' then char_of (of_char c - (32::nat)) else c)"

definition toUpperCase :: "string \<Rightarrow> string" where
  "toUpperCase s = map upper_char s"

text \<open>\<open>Number.prototype.toString\<close> on an integer: decimal digits, a minus sign when negative.\<close>

definition digit_char :: "nat \<Rightarrow> char" where
  "digit_char d = char_of (of_char (CHR ''0'') + d)"

fun digits_of :: "nat \<Rightarrow> string" where
  "digits_of n = (if n < 10 then [digit_char n] else digits_of (n div 10) @ [digit_char (n mod 10)])"

declare digits_of.simps [simp del]

definition toString :: "int \<Rightarrow> string" where
  "toString i = (if i < 0 then CHR ''-'' # digits_of (nat (- i)) else digits_of (nat i))"


section \<open>Signing strategies\<close>

subsection \<open>Hikvision: HMAC-SHA256 over a canonical string (hikvision/auth.js)\<close>

text \<open>
  The HMAC-SHA256 primitive with base64 output (\<open>crypto.createHmac("sha256", key)\<close>,
  \<open>digest("base64")\<close>) and \<open>JSON.stringify\<close> belong to the runtime; the definitions take
  them as parameters \<open>hmac\<close> (key, then data) and \<open>stringify\<close>.  The clock reading
  \<open>Date.now()\<close> and the \<open>uuidv4()\<close> nonce are inputs of \<open>generateAuthHeaders\<close>.
\<close>

record HikvisionAuth =
  appKey :: string
  appSecret :: string
  hik_debug :: bool

datatype 'o js_body = BodyAbsent | BodyString string | BodyObject 'o | BodyOther

record AuthHeaders =
  X_Ca_Key :: string
  X_Ca_Nonce :: string
  X_Ca_Timestamp :: string
  X_Ca_Signature :: string
  X_Ca_Signature_Headers :: string

definition startsWithSlash :: "string \<Rightarrow> bool" where
  "startsWithSlash url = (case url of [] \<Rightarrow> False | c # _ \<Rightarrow> c = CHR ''/'')"

definition buildSignatureString ::
  "HikvisionAuth \<Rightarrow> string \<Rightarrow> string \<Rightarrow> string \<Rightarrow> string \<Rightarrow> string \<Rightarrow> string" where
  "buildSignatureString this meth url body timestamp nonce =
     (let cleanUrl = (if startsWithSlash url then url else ''/'' @ url);
          signatureParts = [toUpperCase meth, ''application/json'', ''application/json''];
          customHeaders = sort [''x-ca-key:'' @ appKey this,
                                ''x-ca-nonce:'' @ nonce,
                                ''x-ca-timestamp:'' @ timestamp]
      in join ''\<newline>'' (signatureParts @ customHeaders @ [cleanUrl]))"

definition generateSignature :: "(string \<Rightarrow> string \<Rightarrow> string) \<Rightarrow> HikvisionAuth \<Rightarrow> string \<Rightarrow> string" where
  "generateSignature hmac this data = hmac (appSecret this) data"

definition generateAuthHeaders ::
  "('o \<Rightarrow> string) \<Rightarrow> (string \<Rightarrow> string \<Rightarrow> string) \<Rightarrow> HikvisionAuth \<Rightarrow> int \<Rightarrow> string \<Rightarrow>
     string \<Rightarrow> string \<Rightarrow> 'o js_body \<Rightarrow> AuthHeaders" where
  "generateAuthHeaders stringify hmac this now uuid meth url body =
     (let timestamp = toString now;
          nonce = uuid;
          bodyStr = (case body of
                       BodyObject obj \<Rightarrow> stringify obj
                     | BodyString s \<Rightarrow> (if s \<noteq> [] then s else [])
                     | _ \<Rightarrow> []);
          signatureData = buildSignatureString this meth url bodyStr timestamp nonce;
          signature = generateSignature hmac this signatureData
      in \<lparr> X_Ca_Key = appKey this,
           X_Ca_Nonce = nonce,
           X_Ca_Timestamp = timestamp,
           X_Ca_Signature = signature,
           X_Ca_Signature_Headers = ''x-ca-key,x-ca-nonce,x-ca-timestamp'' \<rparr>)"

definition verifySignature ::
  "(string \<Rightarrow> string \<Rightarrow> string) \<Rightarrow> HikvisionAuth \<Rightarrow> string \<Rightarrow> string \<Rightarrow> string \<Rightarrow> string \<Rightarrow>
     string \<Rightarrow> string \<Rightarrow> bool" where
  "verifySignature hmac this meth url body timestamp nonce expectedSignature =
     (let signatureData = buildSignatureString this meth url body timestamp nonce;
          actualSignature = generateSignature hmac this signatureData
      in actualSignature = expectedSignature)"

subsection \<open>Uniview: challenge-response MD5 signature (uniview/auth.js)\<close>

text \<open>
  \<open>md5\<close> is \<open>crypto.createHash('md5').update(s).digest('hex')\<close> and \<open>base64\<close> is
  \<open>Buffer.from(s).toString('base64')\<close>; both are runtime primitives and parameters here.
\<close>

record UniviewAuth =
  auth_username :: string
  auth_password :: string
  auth_debug :: bool

record LoginData =
  UserName :: string
  AccessCode :: string
  LoginSignature :: string

definition calculateLoginSignature ::
  "(string \<Rightarrow> string) \<Rightarrow> string \<Rightarrow> string \<Rightarrow> string \<Rightarrow> string" where
  "calculateLoginSignature md5 usernameBase64 accessCode passwordMd5 =
     md5 (usernameBase64 @ accessCode @ passwordMd5)"

definition buildLoginData ::
  "(string \<Rightarrow> string) \<Rightarrow> (string \<Rightarrow> string) \<Rightarrow> UniviewAuth \<Rightarrow> string \<Rightarrow> LoginData" where
  "buildLoginData md5 base64 this accessCode =
     (let usernameBase64 = base64 (auth_username this);
          passwordMd5 = md5 (auth_password this);
          loginSignature = calculateLoginSignature md5 usernameBase64 accessCode passwordMd5
      in \<lparr> UserName = auth_username this,
           AccessCode = accessCode,
           LoginSignature = loginSignature \<rparr>)"


section \<open>Error taxonomy (utils/errors/cameraErrors.js)\<close>

text \<open>
  \<open>camera_error\<close> are the instances of the \<open>CameraError\<close> subclasses (\<open>isCameraError\<close> is
  true on them).  \<open>thrown\<close> is every value the modelled code throws or rejects with: an
  axios error carrying a response (status and body), an axios error with a request and no
  response, a \<open>CameraError\<close>, a plain \<open>Error\<close> and a \<open>TypeError\<close> of the runtime.  The
  source's messages are Chinese text; a plain \<open>Error\<close> carries an ASCII tag in its place.
\<close>

datatype network_message = NoResponseReceived | UnknownError | RequestConfigFailed

datatype camera_error =
    ApiError nat
  | AuthError
  | NetworkError network_message
  | ParameterError string
  | TimeoutError

datatype 'b thrown =
    AxiosResponseError nat 'b
  | AxiosRequestError
  | Camera camera_error
  | PlainError string
  | TypeError

datatype error_kind = API | AUTH | NETWORK | PARAMETER | TIMEOUT

fun kind_of_camera_error :: "camera_error \<Rightarrow> error_kind" where
  "kind_of_camera_error (ApiError _) = API"
| "kind_of_camera_error AuthError = AUTH"
| "kind_of_camera_error (NetworkError _) = NETWORK"
| "kind_of_camera_error (ParameterError _) = PARAMETER"
| "kind_of_camera_error TimeoutError = TIMEOUT"

text \<open>The taxonomy kind of a thrown value; a value that is no \<open>CameraError\<close> has none.\<close>

fun kind_of :: "'b thrown \<Rightarrow> error_kind option" where
  "kind_of (Camera e) = Some (kind_of_camera_error e)"
| "kind_of _ = None"

text \<open>
  \<open>handleResponseError\<close> is the same in the Dahua and Uniview clients (it returns the
  error object); the Hikvision client returns it wrapped in a rejected promise.
\<close>

fun handleResponseError :: "'b thrown \<Rightarrow> camera_error" where
  "handleResponseError (AxiosResponseError status data) =
     (if status = 401 \<or> status = 403 then AuthError else ApiError status)"
| "handleResponseError AxiosRequestError = NetworkError NoResponseReceived"
| "handleResponseError _ = NetworkError UnknownError"

text \<open>\<open>enhanceError\<close> returns the error it is given (it adds fields to a non-camera error).\<close>

definition enhanceError :: "'b thrown \<Rightarrow> 'b thrown" where
  "enhanceError error = error"


section \<open>Client construction\<close>

text \<open>
  A configuration object with the recognised options; an absent field is \<open>None\<close>.  The
  argument of a constructor is \<open>None\<close> when the caller passes \<open>null\<close> or nothing.
\<close>

record Config =
  cfg_host :: "string option"
  cfg_appKey :: "string option"
  cfg_appSecret :: "string option"
  cfg_username :: "string option"
  cfg_password :: "string option"
  cfg_client_id :: "string option"
  cfg_client_secret :: "string option"
  cfg_debug :: "bool option"

text \<open>HikvisionClient.validateConfig\<close>

definition hik_validateConfig :: "Config option \<Rightarrow> 'b thrown + unit" where
  "hik_validateConfig config =
     (case config of
        None \<Rightarrow> Inl (PlainError ''config object must not be empty'')
      | Some c \<Rightarrow>
          if \<not> truthy_str (cfg_host c) then Inl (PlainError ''host must not be empty'')
          else if \<not> truthy_str (cfg_appKey c) then Inl (PlainError ''appKey must not be empty'')
          else if \<not> truthy_str (cfg_appSecret c) then Inl (PlainError ''appSecret must not be empty'')
          else Inr ())"

text \<open>DahuaClient.validateConfig\<close>

definition dh_validateConfig :: "Config option \<Rightarrow> 'b thrown + unit" where
  "dh_validateConfig config =
     (case config of
        None \<Rightarrow> Inl (PlainError ''config object must not be empty'')
      | Some c \<Rightarrow>
          if \<not> truthy_str (cfg_host c) then Inl (PlainError ''host must not be empty'')
          else if \<not> truthy_str (cfg_username c) then Inl (PlainError ''username must not be empty'')
          else if \<not> truthy_str (cfg_password c) then Inl (PlainError ''password must not be empty'')
          else if \<not> truthy_str (cfg_client_id c) then Inl (PlainError ''client_id must not be empty'')
          else if \<not> truthy_str (cfg_client_secret c)
            then Inl (PlainError ''client_secret must not be empty'')
          else Inr ())"

text \<open>UniviewClient.validateConfig\<close>

definition uv_validateConfig :: "Config option \<Rightarrow> 'b thrown + unit" where
  "uv_validateConfig config =
     (case config of
        None \<Rightarrow> Inl (PlainError ''config object must not be empty'')
      | Some c \<Rightarrow>
          if \<not> truthy_str (cfg_host c) then Inl (PlainError ''host must not be empty'')
          else if \<not> truthy_str (cfg_username c) then Inl (PlainError ''username must not be empty'')
          else if \<not> truthy_str (cfg_password c) then Inl (PlainError ''password must not be empty'')
          else Inr ())"


section \<open>The runtime a client lives in\<close>

text \<open>
  The transport is scripted: \<open>replies\<close> are the answers of the platform to the next
  dispatched requests, in order (\<open>NoReply\<close>: no response arrives; an exhausted script
  answers nothing).  \<open>sent\<close> logs every dispatched request, oldest first, with the
  \<open>Authorization\<close> header it carried.  \<open>timers\<close> are the interval handles that are
  pending in the runtime, \<open>timer_seq\<close> the next fresh handle, \<open>clock\<close> is \<open>Date.now()\<close>.
  Axios resolves a response whose status is 2xx and rejects every other one.
\<close>

datatype 'b reply = Reply nat 'b | NoReply

record request_config =
  rc_method :: string
  rc_url :: string

record sent_request =
  sr_method :: string
  sr_url :: string
  sr_authorization :: "string option"

record 'b runtime =
  clock :: nat
  replies :: "'b reply list"
  sent :: "sent_request list"
  timers :: "nat list"
  timer_seq :: nat

definition dispatch ::
  "request_config \<Rightarrow> string option \<Rightarrow> ('b, 'm) runtime_scheme \<Rightarrow> 'b reply \<times> ('b, 'm) runtime_scheme" where
  "dispatch cfg authorization s =
     (let s' = s\<lparr>sent := sent s @ [\<lparr>sr_method = rc_method cfg, sr_url = rc_url cfg,
                                     sr_authorization = authorization\<rparr>]\<rparr>
      in case replies s of
           [] \<Rightarrow> (NoReply, s')
         | r # rs \<Rightarrow> (r, s'\<lparr>replies := rs\<rparr>))"

definition status_ok :: "nat \<Rightarrow> bool" where
  "status_ok status = (200 \<le> status \<and> status < 300)"

definition setInterval :: "('b, 'm) runtime_scheme \<Rightarrow> nat \<times> ('b, 'm) runtime_scheme" where
  "setInterval s = (timer_seq s, s\<lparr>timers := timers s @ [timer_seq s], timer_seq := Suc (timer_seq s)\<rparr>)"

definition clearInterval :: "nat \<Rightarrow> ('b, 'm) runtime_scheme \<Rightarrow> ('b, 'm) runtime_scheme" where
  "clearInterval h s = s\<lparr>timers := removeAll h (timers s)\<rparr>"


section \<open>Session state\<close>

subsection \<open>Uniview client (uniview/client.js)\<close>

record uv_body =
  b_ErrCode :: "int option"
  b_AccessCode :: "string option"
  b_AccessToken :: "string option"

text \<open>\<open>uv_logins\<close> counts the calls of \<open>login()\<close>; it is instrumentation, not a field of the client.\<close>

record uv_state = "uv_body runtime" +
  uv_accessToken :: "string option"
  uv_tokenExpiresAt :: "jsnum option"
  uv_keepAliveInterval :: "nat option"
  uv_logins :: nat

definition uv_isAuthenticated :: "uv_state \<Rightarrow> bool" where
  "uv_isAuthenticated this =
     (truthy_str (uv_accessToken this) \<and> truthy_num (uv_tokenExpiresAt this)
      \<and> (case uv_tokenExpiresAt this of None \<Rightarrow> False | Some e \<Rightarrow> js_lt (int (clock this)) e))"

definition startKeepAlive :: "uv_state \<Rightarrow> uv_state" where
  "startKeepAlive this =
     (if uv_keepAliveInterval this \<noteq> None then this
      else (let (h, this') = setInterval this in this'\<lparr>uv_keepAliveInterval := Some h\<rparr>))"

definition stopKeepAlive :: "uv_state \<Rightarrow> uv_state" where
  "stopKeepAlive this =
     (case uv_keepAliveInterval this of
        Some h \<Rightarrow> (clearInterval h this)\<lparr>uv_keepAliveInterval := None\<rparr>
      | None \<Rightarrow> this)"

definition uv_close :: "uv_state \<Rightarrow> uv_state" where
  "uv_close this = (stopKeepAlive this)\<lparr>uv_accessToken := None, uv_tokenExpiresAt := None\<rparr>"

text \<open>The constructor: validation first, then the fields; it never touches the transport.\<close>

definition uv_new :: "Config option \<Rightarrow> uv_body runtime \<Rightarrow> uv_body thrown + uv_state" where
  "uv_new config rt =
     (case uv_validateConfig config of
        Inl e \<Rightarrow> Inl e
      | Inr _ \<Rightarrow> Inr (runtime.extend rt
                 (uv_state.fields None None None 0)))"

subsection \<open>Dahua client (dahua/client.js)\<close>

record dh_token_data =
  d_publicKey :: "string option"
  d_access_token :: "string option"
  d_token_type :: "string option"
  d_expires_in :: "int option"

record dh_body =
  b_success :: "bool option"
  b_data :: "dh_token_data option"

record DahuaAuth =
  da_username :: string
  da_password :: string
  da_clientId :: string
  da_clientSecret :: string

record dh_state = "dh_body runtime" +
  dh_auth :: DahuaAuth
  dh_accessToken :: "string option"
  dh_tokenType :: string
  dh_tokenExpiresAt :: "jsnum option"
  dh_logins :: nat

definition dh_isAuthenticated :: "dh_state \<Rightarrow> bool" where
  "dh_isAuthenticated this =
     (if \<not> truthy_str (dh_accessToken this) then False
      else if truthy_num (dh_tokenExpiresAt this)
              \<and> (case dh_tokenExpiresAt this of None \<Rightarrow> False | Some e \<Rightarrow> js_ge (int (clock this)) e)
           then False
      else True)"

definition dh_close :: "dh_state \<Rightarrow> dh_state" where
  "dh_close this = this\<lparr>dh_accessToken := None, dh_tokenExpiresAt := None\<rparr>"

definition dh_new :: "Config option \<Rightarrow> dh_body runtime \<Rightarrow> dh_body thrown + dh_state" where
  "dh_new config rt =
     (case dh_validateConfig config of
        Inl e \<Rightarrow> Inl e
      | Inr _ \<Rightarrow>
          (case config of
             None \<Rightarrow> Inl TypeError
           | Some c \<Rightarrow>
               Inr (runtime.extend rt
                 (dh_state.fields
                    \<lparr> da_username = (case cfg_username c of Some u \<Rightarrow> u | None \<Rightarrow> []),
                      da_password = (case cfg_password c of Some u \<Rightarrow> u | None \<Rightarrow> []),
                      da_clientId = (case cfg_client_id c of Some u \<Rightarrow> u | None \<Rightarrow> []),
                      da_clientSecret = (case cfg_client_secret c of Some u \<Rightarrow> u | None \<Rightarrow> []) \<rparr>
                    None ''bearer'' None 0))))"

subsection \<open>Hikvision client (hikvision/client.js)\<close>

text \<open>The Hikvision client keeps no session: every request is signed on its own.\<close>

record hik_body =
  b_code :: "string option"

record hik_state = "hik_body runtime" +
  hik_auth :: HikvisionAuth

definition hik_new :: "Config option \<Rightarrow> hik_body runtime \<Rightarrow> hik_body thrown + hik_state" where
  "hik_new config rt =
     (case hik_validateConfig config of
        Inl e \<Rightarrow> Inl e
      | Inr _ \<Rightarrow>
          (case config of
             None \<Rightarrow> Inl TypeError
           | Some c \<Rightarrow>
               Inr (runtime.extend rt
                 (hik_state.fields
                    \<lparr> appKey = (case cfg_appKey c of Some k \<Rightarrow> k | None \<Rightarrow> ''undefined''),
                      appSecret = (case cfg_appSecret c of Some k \<Rightarrow> k | None \<Rightarrow> []),
                      hik_debug = (case cfg_debug c of Some d \<Rightarrow> d | None \<Rightarrow> False) \<rparr>))))"


section \<open>Request pipelines\<close>

record 'b response =
  resp_status :: nat
  resp_data :: 'b

definition sleep :: "nat \<Rightarrow> ('b, 'm) runtime_scheme \<Rightarrow> ('b, 'm) runtime_scheme" where
  "sleep ms s = s\<lparr>clock := clock s + ms\<rparr>"

definition LOGIN :: string where
  "LOGIN = ''/VIID/login''"

definition TOKEN_KEEP_ALIVE :: string where
  "TOKEN_KEEP_ALIVE = ''/VIID/token/alive/keep''"

definition uv_processResponse :: "uv_body response \<Rightarrow> uv_body thrown + uv_body response" where
  "uv_processResponse response =
     (if b_ErrCode (resp_data response) \<noteq> None \<and> b_ErrCode (resp_data response) \<noteq> Some 0
      then Inl (Camera (ApiError (resp_status response)))
      else Inr response)"

definition uv_rawPost :: "string \<Rightarrow> uv_state \<Rightarrow> (uv_body thrown + uv_body response) \<times> uv_state" where
  "uv_rawPost path this =
     (let (rep, this') = dispatch \<lparr>rc_method = ''POST'', rc_url = path\<rparr> None this
      in case rep of
           NoReply \<Rightarrow> (Inl (enhanceError (Camera (handleResponseError (AxiosRequestError :: uv_body thrown)))), this')
         | Reply status data \<Rightarrow>
             if status_ok status
             then (map_sum enhanceError id (uv_processResponse \<lparr>resp_status = status, resp_data = data\<rparr>), this')
             else (Inl (enhanceError (Camera (handleResponseError (AxiosResponseError status data)))), this'))"

definition uv_store_token :: "string option \<Rightarrow> uv_state \<Rightarrow> uv_state" where
  "uv_store_token token this =
     startKeepAlive (this\<lparr>uv_accessToken := token,
                          uv_tokenExpiresAt := Some (Num (int (clock this) + (48 * 3600 - 60) * 1000))\<rparr>)"

definition uv_login_attempt :: "uv_state \<Rightarrow> (uv_body thrown + uv_body) \<times> uv_state" where
  "uv_login_attempt this =
     (case uv_rawPost LOGIN this of
        (Inl err, s1) \<Rightarrow> (Inl err, s1)
      | (Inr res, s1) \<Rightarrow>
          if truthy_str (b_AccessCode (resp_data res)) \<and> \<not> truthy_str (b_AccessToken (resp_data res))
          then (case uv_rawPost LOGIN s1 of
                  (Inl err, s2) \<Rightarrow> (Inl err, s2)
                | (Inr loginRes, s2) \<Rightarrow>
                    (let data = resp_data loginRes
                     in if (b_ErrCode data = None \<or> b_ErrCode data = Some 0) \<and> truthy_str (b_AccessToken data)
                        then (Inr data, uv_store_token (b_AccessToken data) s2)
                        else (Inl (PlainError ''login failed''), s2)))
          else if truthy_str (b_AccessToken (resp_data res))
          then (Inr (resp_data res), uv_store_token (b_AccessToken (resp_data res)) s1)
          else (Inl (PlainError ''login failed: response format''), s1))"

definition maxRetries :: nat where
  "maxRetries = 3"

function uv_login_loop :: "nat \<Rightarrow> uv_state \<Rightarrow> bool \<times> uv_state" where
  "uv_login_loop attempts this =
     (if attempts \<le> maxRetries
      then (case uv_login_attempt this of
              (Inr data, s1) \<Rightarrow> (True, s1)
            | (Inl err, s1) \<Rightarrow>
                (let attempts' = attempts + 1
                 in if attempts' > maxRetries then (False, s1)
                    else uv_login_loop attempts' (sleep (1000 * attempts') s1)))
      else (False, this))"
  by pat_completeness auto
termination
  by (relation "measure (\<lambda>(attempts, this). Suc maxRetries - attempts)") auto

declare uv_login_loop.simps [simp del]

definition uv_login :: "uv_state \<Rightarrow> bool \<times> uv_state" where
  "uv_login this =
     uv_login_loop 0 (this\<lparr>uv_logins := Suc (uv_logins this),
                            uv_accessToken := None, uv_tokenExpiresAt := None\<rparr>)"

definition uv_ensureAuthenticated :: "uv_state \<Rightarrow> bool \<times> uv_state" where
  "uv_ensureAuthenticated this =
     (if uv_isAuthenticated this then (True, this) else uv_login this)"

lemma replies_dispatch_le:
  "length (replies (snd (dispatch cfg a s))) \<le> length (replies s)"
  by (simp add: dispatch_def Let_def split: list.splits)

lemma replies_dispatch_Reply:
  "dispatch cfg a s = (Reply status data, s') \<Longrightarrow> length (replies s') < length (replies s)"
  by (auto simp add: dispatch_def Let_def split: list.splits)

lemma replies_startKeepAlive [simp]: "replies (startKeepAlive this) = replies this"
  by (simp add: startKeepAlive_def setInterval_def)

lemma replies_uv_store_token [simp]: "replies (uv_store_token t this) = replies this"
  by (simp add: uv_store_token_def)

lemma replies_uv_rawPost_le:
  "length (replies (snd (uv_rawPost path this))) \<le> length (replies this)"
  using replies_dispatch_le [of "\<lparr>rc_method = ''POST'', rc_url = path\<rparr>" None this]
  by (auto simp add: uv_rawPost_def Let_def split: prod.splits reply.splits)

lemma replies_uv_login_attempt_le:
  "length (replies (snd (uv_login_attempt this))) \<le> length (replies this)"
proof (cases "uv_rawPost LOGIN this")
  case (Pair r1 s1)
  then have le1: "length (replies s1) \<le> length (replies this)"
    using replies_uv_rawPost_le [of LOGIN this] by simp
  show ?thesis
  proof (cases "uv_rawPost LOGIN s1")
    case second: (Pair r2 s2)
    then have "length (replies s2) \<le> length (replies s1)"
      using replies_uv_rawPost_le [of LOGIN s1] by simp
    with le1 have le2: "length (replies s2) \<le> length (replies this)"
      by simp
    show ?thesis
      using Pair second le1 le2
      by (simp add: uv_login_attempt_def Let_def split: sum.splits)
  qed
qed

lemma replies_sleep [simp]: "replies (sleep ms s) = replies s"
  by (simp add: sleep_def)

lemma replies_uv_login_loop_le:
  "length (replies (snd (uv_login_loop attempts this))) \<le> length (replies this)"
proof (induction attempts this rule: uv_login_loop.induct)
  case (1 attempts this)
  show ?case
  proof (cases "uv_login_attempt this")
    case (Pair r s1)
    have le1: "length (replies s1) \<le> length (replies this)"
      using replies_uv_login_attempt_le [of this] Pair by simp
    show ?thesis
    proof (cases r)
      case (Inr data)
      with Pair le1 show ?thesis
        by (subst uv_login_loop.simps) simp
    next
      case (Inl err)
      show ?thesis
      proof (cases "attempts \<le> maxRetries \<and> \<not> attempts + 1 > maxRetries")
        case True
        have "length (replies (snd (uv_login_loop (attempts + 1) (sleep (1000 * (attempts + 1)) s1))))
            \<le> length (replies (sleep (1000 * (attempts + 1)) s1))"
          by (rule "1.IH" [OF _ Pair [symmetric] Inl refl]) (use True in simp_all)
        with True Pair Inl le1 show ?thesis
          by (subst uv_login_loop.simps) (simp add: Let_def)
      next
        case False
        with Pair Inl le1 show ?thesis
          by (subst uv_login_loop.simps) (auto simp add: Let_def)
      qed
    qed
  qed
qed

lemma replies_uv_login_le:
  "length (replies (snd (uv_login this))) \<le> length (replies this)"
  using replies_uv_login_loop_le [of 0 "this\<lparr>uv_logins := Suc (uv_logins this),
                            uv_accessToken := None, uv_tokenExpiresAt := None\<rparr>"]
  by (simp add: uv_login_def)

lemma replies_uv_ensureAuthenticated_le:
  "length (replies (snd (uv_ensureAuthenticated this))) \<le> length (replies this)"
  using replies_uv_login_le [of this] by (simp add: uv_ensureAuthenticated_def)

definition uv_authorization :: "uv_state \<Rightarrow> string option" where
  "uv_authorization this = (if truthy_str (uv_accessToken this) then uv_accessToken this else None)"

function uv_httpClient_request ::
  "request_config \<Rightarrow> uv_state \<Rightarrow> (uv_body thrown + uv_body response) \<times> uv_state" where
  "uv_httpClient_request cfg this =
     (let (authResult, s1) = uv_ensureAuthenticated this;
          authorization = uv_authorization s1;
          (rep, s2) = dispatch cfg authorization s1
      in case rep of
           NoReply \<Rightarrow> (Inl (Camera (handleResponseError (AxiosRequestError :: uv_body thrown))), s2)
         | Reply status data \<Rightarrow>
             if status_ok status then (Inr \<lparr>resp_status = status, resp_data = data\<rparr>, s2)
             else if status = 401 \<or> status = 403
             then (case uv_login s2 of
                     (True, s3) \<Rightarrow>
                       (case uv_httpClient_request cfg s3 of
                          (Inr retryResponse, s4) \<Rightarrow> (Inr retryResponse, s4)
                        | (Inl retryError, s4) \<Rightarrow> (Inl (Camera (handleResponseError retryError)), s4))
                   | (False, s3) \<Rightarrow>
                       (Inl (Camera (handleResponseError (AxiosResponseError status data))), s3))
             else (Inl (Camera (handleResponseError (AxiosResponseError status data))), s2))"
  by pat_completeness auto
termination
proof (relation "measure (\<lambda>(cfg, this). length (replies this))", goal_cases)
  case 1
  show ?case by simp
next
  case (2 cfg this x xa y xb xc xd ya x11 x12 xe yb)
  have "snd (uv_ensureAuthenticated this) = y"
    using 2 by (metis snd_conv)
  then have "length (replies y) \<le> length (replies this)"
    using replies_uv_ensureAuthenticated_le [of this] by simp
  moreover have "dispatch cfg xb y = (Reply x11 x12, ya)"
    using 2 by metis
  then have "length (replies ya) < length (replies y)"
    by (rule replies_dispatch_Reply)
  moreover have "snd (uv_login ya) = yb"
    using 2 by (metis snd_conv)
  then have "length (replies yb) \<le> length (replies ya)"
    using replies_uv_login_le [of ya] by simp
  ultimately show ?case by simp
qed

declare uv_httpClient_request.simps [simp del]


definition uv_request ::
  "request_config \<Rightarrow> uv_state \<Rightarrow> (uv_body thrown + uv_body response) \<times> uv_state" where
  "uv_request cfg this =
     (case uv_httpClient_request cfg this of
        (Inl error, s1) \<Rightarrow> (Inl (enhanceError error), s1)
      | (Inr response, s1) \<Rightarrow> (map_sum enhanceError id (uv_processResponse response), s1))"

definition uv_get :: "string \<Rightarrow> uv_state \<Rightarrow> (uv_body thrown + uv_body response) \<times> uv_state" where
  "uv_get path this = uv_request \<lparr>rc_method = ''GET'', rc_url = path\<rparr> this"

definition uv_keepTokenAlive :: "uv_state \<Rightarrow> bool \<times> uv_state" where
  "uv_keepTokenAlive this =
     (if \<not> uv_isAuthenticated this then uv_login this
      else (case uv_get TOKEN_KEEP_ALIVE this of
              (Inr res, s1) \<Rightarrow>
                if b_ErrCode (resp_data res) = Some 0 then (True, s1) else uv_login s1
            | (Inl err, s1) \<Rightarrow> uv_login s1))"

definition hik_processResponse :: "hik_body response \<Rightarrow> hik_body thrown + hik_body response" where
  "hik_processResponse response =
     (if truthy_str (b_code (resp_data response)) \<and> b_code (resp_data response) \<noteq> Some ''0''
      then Inl (Camera (ApiError (resp_status response)))
      else Inr response)"

definition hik_httpClient_request ::
  "('o \<Rightarrow> string) \<Rightarrow> (string \<Rightarrow> string \<Rightarrow> string) \<Rightarrow> string \<Rightarrow> request_config \<Rightarrow> 'o js_body
     \<Rightarrow> hik_state \<Rightarrow> (hik_body thrown + hik_body response) \<times> hik_state" where
  "hik_httpClient_request stringify hmac uuid cfg body this =
     (let authHeaders = generateAuthHeaders stringify hmac (hik_auth this) (int (clock this)) uuid
                          (toUpperCase (rc_method cfg)) (rc_url cfg) body;
          (rep, s1) = dispatch cfg (Some (X_Ca_Signature authHeaders)) this
      in case rep of
           NoReply \<Rightarrow> (Inl (Camera (handleResponseError (AxiosRequestError :: hik_body thrown))), s1)
         | Reply status data \<Rightarrow>
             if status_ok status then (Inr \<lparr>resp_status = status, resp_data = data\<rparr>, s1)
             else (Inl (Camera (handleResponseError (AxiosResponseError status data))), s1))"

definition hik_request ::
  "('o \<Rightarrow> string) \<Rightarrow> (string \<Rightarrow> string \<Rightarrow> string) \<Rightarrow> string \<Rightarrow> request_config \<Rightarrow> 'o js_body
     \<Rightarrow> hik_state \<Rightarrow> (hik_body thrown + hik_body response) \<times> hik_state" where
  "hik_request stringify hmac uuid cfg body this =
     (case hik_httpClient_request stringify hmac uuid cfg body this of
        (Inl error, s1) \<Rightarrow> (Inl (enhanceError error), s1)
      | (Inr response, s1) \<Rightarrow> (map_sum enhanceError id (hik_processResponse response), s1))"

definition PUBLIC_KEY :: string where
  "PUBLIC_KEY = ''/evo-apigw/evo-oauth/1.0.0/oauth/public-key''"

definition ACCESS_TOKEN :: string where
  "ACCESS_TOKEN = ''/evo-apigw/evo-oauth/1.0.0/oauth/extend/token''"

record AuthData =
  grant_type :: string
  ad_username :: string
  ad_password :: string
  ad_client_id :: string
  ad_client_secret :: string
  ad_public_key :: "string option"

definition buildAuthData ::
  "(string \<Rightarrow> string \<Rightarrow> string option) \<Rightarrow> DahuaAuth \<Rightarrow> string option \<Rightarrow> AuthData option" where
  "buildAuthData rsaEncrypt this publicKey =
     (case rsaEncrypt (da_password this) (case publicKey of Some k \<Rightarrow> k | None \<Rightarrow> ''undefined'') of
        None \<Rightarrow> None
      | Some encryptedPassword \<Rightarrow>
          Some \<lparr> grant_type = ''password'',
                 ad_username = da_username this,
                 ad_password = encryptedPassword,
                 ad_client_id = da_clientId this,
                 ad_client_secret = da_clientSecret this,
                 ad_public_key = publicKey \<rparr>)"

definition dh_processResponse :: "dh_body response \<Rightarrow> dh_body thrown + dh_body response" where
  "dh_processResponse response =
     (if b_success (resp_data response) = Some False
      then Inl (Camera (ApiError (resp_status response)))
      else Inr response)"

definition dh_store_token :: "dh_token_data \<Rightarrow> dh_state \<Rightarrow> dh_state" where
  "dh_store_token d this =
     this\<lparr> dh_accessToken := d_access_token d,
            dh_tokenType := (case d_token_type d of
                               Some t \<Rightarrow> if t \<noteq> [] then t else ''bearer''
                             | None \<Rightarrow> ''bearer''),
            dh_tokenExpiresAt := Some (case d_expires_in d of
                                         Some expires_in \<Rightarrow> Num (int (clock this) + (expires_in - 60) * 1000)
                                       | None \<Rightarrow> NaN) \<rparr>"

type_synonym dh_http =
  "request_config \<Rightarrow> dh_state \<Rightarrow> ((dh_body thrown + dh_body response) \<times> dh_state) option"

definition dh_request :: "dh_http \<Rightarrow> request_config \<Rightarrow> dh_state
    \<Rightarrow> ((dh_body thrown + dh_body response) \<times> dh_state) option" where
  "dh_request httpClient cfg this =
     (case httpClient cfg this of
        None \<Rightarrow> None
      | Some (Inl error, s1) \<Rightarrow> Some (Inl (enhanceError error), s1)
      | Some (Inr response, s1) \<Rightarrow> Some (map_sum enhanceError id (dh_processResponse response), s1))"

definition dh_getPublicKey :: "dh_http \<Rightarrow> dh_state
    \<Rightarrow> ((dh_body thrown + string option) \<times> dh_state) option" where
  "dh_getPublicKey httpClient this =
     (case dh_request httpClient \<lparr>rc_method = ''GET'', rc_url = PUBLIC_KEY\<rparr> this of
        None \<Rightarrow> None
      | Some (Inl err, s1) \<Rightarrow> Some (Inl err, s1)
      | Some (Inr response, s1) \<Rightarrow>
          if b_success (resp_data response) = Some True
          then Some (Inr (case b_data (resp_data response) of
                            None \<Rightarrow> None
                          | Some d \<Rightarrow> d_publicKey d), s1)
          else Some (Inl (PlainError ''failed to get the public key''), s1))"

definition dh_getAccessToken ::
  "dh_http \<Rightarrow> (string \<Rightarrow> string \<Rightarrow> string option) \<Rightarrow> string option \<Rightarrow> dh_state
    \<Rightarrow> ((dh_body thrown + dh_body) \<times> dh_state) option" where
  "dh_getAccessToken httpClient rsaEncrypt publicKey this =
     (case buildAuthData rsaEncrypt (dh_auth this) publicKey of
        None \<Rightarrow> Some (Inl (PlainError ''RSA encryption failed''), this)
      | Some authData \<Rightarrow>
          (case dh_request httpClient \<lparr>rc_method = ''POST'', rc_url = ACCESS_TOKEN\<rparr> this of
             None \<Rightarrow> None
           | Some (Inl err, s1) \<Rightarrow> Some (Inl err, s1)
           | Some (Inr response, s1) \<Rightarrow> Some (Inr (resp_data response), s1)))"

definition dh_login ::
  "dh_http \<Rightarrow> (string \<Rightarrow> string \<Rightarrow> string option) \<Rightarrow> dh_state \<Rightarrow> (bool \<times> dh_state) option" where
  "dh_login httpClient rsaEncrypt this =
     (case dh_getPublicKey httpClient (this\<lparr>dh_logins := Suc (dh_logins this)\<rparr>) of
        None \<Rightarrow> None
      | Some (Inl err, s1) \<Rightarrow> Some (False, s1)
      | Some (Inr publicKey, s1) \<Rightarrow>
          (case dh_getAccessToken httpClient rsaEncrypt publicKey s1 of
             None \<Rightarrow> None
           | Some (Inl err, s2) \<Rightarrow> Some (False, s2)
           | Some (Inr tokenData, s2) \<Rightarrow>
               if b_success tokenData = Some True
               then (case b_data tokenData of
                       None \<Rightarrow> Some (False, s2)
                     | Some d \<Rightarrow> Some (True, dh_store_token d s2))
               else Some (False, s2)))"

definition dh_ensureAuthenticated ::
  "dh_http \<Rightarrow> (string \<Rightarrow> string \<Rightarrow> string option) \<Rightarrow> dh_state \<Rightarrow> (bool \<times> dh_state) option" where
  "dh_ensureAuthenticated httpClient rsaEncrypt this =
     (if dh_isAuthenticated this then Some (True, this) else dh_login httpClient rsaEncrypt this)"

definition dh_authorization :: "dh_state \<Rightarrow> string option" where
  "dh_authorization this =
     (if dh_isAuthenticated this
      then Some (dh_tokenType this @ '' '' @ (case dh_accessToken this of Some t \<Rightarrow> t | None \<Rightarrow> ''null''))
      else None)"

definition dh_interceptors ::
  "dh_http \<Rightarrow> (string \<Rightarrow> string \<Rightarrow> string option) \<Rightarrow> dh_http" where
  "dh_interceptors httpClient rsaEncrypt cfg this =
     (case dh_ensureAuthenticated httpClient rsaEncrypt this of
        None \<Rightarrow> None
      | Some (authResult, s1) \<Rightarrow>
          (let authorization = dh_authorization s1;
               (rep, s2) = dispatch cfg authorization s1
           in case rep of
                NoReply \<Rightarrow> Some (Inl (Camera (handleResponseError (AxiosRequestError :: dh_body thrown))), s2)
              | Reply status data \<Rightarrow>
                  if status_ok status then Some (Inr \<lparr>resp_status = status, resp_data = data\<rparr>, s2)
                  else if status = 401 \<or> status = 403
                  then (case dh_login httpClient rsaEncrypt s2 of
                          None \<Rightarrow> None
                        | Some (True, s3) \<Rightarrow>
                            (case httpClient cfg s3 of
                               None \<Rightarrow> None
                             | Some (Inr retryResponse, s4) \<Rightarrow> Some (Inr retryResponse, s4)
                             | Some (Inl retryError, s4) \<Rightarrow>
                                 Some (Inl (Camera (handleResponseError retryError)), s4))
                        | Some (False, s3) \<Rightarrow>
                            Some (Inl (Camera (handleResponseError (AxiosResponseError status data))), s3))
                  else Some (Inl (Camera (handleResponseError (AxiosResponseError status data))), s2)))"

primrec dh_httpClient :: "nat \<Rightarrow> (string \<Rightarrow> string \<Rightarrow> string option) \<Rightarrow> dh_http" where
  "dh_httpClient 0 rsaEncrypt = (\<lambda>cfg this. None)"
| "dh_httpClient (Suc n) rsaEncrypt = dh_interceptors (dh_httpClient n rsaEncrypt) rsaEncrypt"

lemma dh_isAuthenticated_logins [simp]:
  "dh_isAuthenticated (this\<lparr>dh_logins := k\<rparr>) = dh_isAuthenticated this"
  by (simp add: dh_isAuthenticated_def cong: option.case_cong)

lemma dh_httpClient_diverges:
  "\<not> dh_isAuthenticated this \<Longrightarrow> dh_httpClient n rsaEncrypt cfg this = None"
proof (induction n arbitrary: cfg this)
  case 0
  show ?case by simp
next
  case (Suc n)
  have "dh_httpClient n rsaEncrypt \<lparr>rc_method = ''GET'', rc_url = PUBLIC_KEY\<rparr>
          (this\<lparr>dh_logins := Suc (dh_logins this)\<rparr>) = None"
    using Suc.prems by (intro Suc.IH) simp
  then have "dh_login (dh_httpClient n rsaEncrypt) rsaEncrypt this = None"
    by (simp add: dh_login_def dh_getPublicKey_def dh_request_def)
  with Suc.prems show ?case
    by (simp add: dh_interceptors_def dh_ensureAuthenticated_def)
qed


section \<open>Pagination aggregators\<close>

text \<open>
  Both loops are \<open>while (true)\<close> loops that may run forever; they are partial functions into
  \<open>option\<close>, where \<open>None\<close> means that the loop never returns.  The page fetch
  (\<open>getOrganizationsPage\<close>, respectively the \<open>get\<close> of \<open>queryResources\<close>) goes through the
  request pipeline; here it is a parameter that maps the paging fields of the request to what
  the call returns or throws.  In a page, \<open>pageData\<close> is \<open>None\<close> when it is no array, and
  \<open>totalRows\<close> is \<open>Some n\<close> exactly when it is a number other than \<open>NaN\<close>.  The source's
  local \<open>total\<close> is \<open>declaredTotal\<close> here.
\<close>

subsection \<open>DahuaAPI.getAllOrganizations (dahua/api.js)\<close>

record 'a org_data =
  pageData :: "'a list option"
  totalRows :: "int option"

record 'a org_page =
  page_success :: bool
  page_data :: "'a org_data option"

definition dh_pageSize :: nat where
  "dh_pageSize = 1000"

partial_function (option) getAllOrganizations_loop ::
  "(nat \<Rightarrow> nat \<Rightarrow> 'b thrown + 'a org_page) \<Rightarrow> 'a list \<Rightarrow> nat \<Rightarrow> ('b thrown + 'a list) option"
where
  "getAllOrganizations_loop getOrganizationsPage allOrgs pageNum =
     (case getOrganizationsPage pageNum dh_pageSize of
        Inl e \<Rightarrow> Some (Inl e)
      | Inr result \<Rightarrow>
          if \<not> page_success result then Some (Inl (PlainError ''fetching the organization page failed''))
          else (case page_data result of
                  None \<Rightarrow> Some (Inl (PlainError ''the interface returned no data''))
                | Some d \<Rightarrow>
                   (case pageData d of
                      None \<Rightarrow> Some (Inl (PlainError ''pageData is not an array''))
                    | Some pd \<Rightarrow>
                       (let allOrgs' = allOrgs @ pd in
                        case totalRows d of
                          Some declaredTotal \<Rightarrow>
                            if int (length allOrgs') \<ge> declaredTotal then Some (Inr allOrgs')
                            else getAllOrganizations_loop getOrganizationsPage allOrgs' (pageNum + 1)
                        | None \<Rightarrow>
                            if length pd < dh_pageSize then Some (Inr allOrgs')
                            else if pageNum \<ge> 100 then Some (Inr allOrgs')
                            else getAllOrganizations_loop getOrganizationsPage allOrgs' (pageNum + 1)))))"

definition getAllOrganizations ::
  "(nat \<Rightarrow> nat \<Rightarrow> 'b thrown + 'a org_page) \<Rightarrow> ('b thrown + 'a list) option" where
  "getAllOrganizations getOrganizationsPage = getAllOrganizations_loop getOrganizationsPage [] 1"

text \<open>
  The stop rule in the words of the specification: with a declared total, stop once the
  accumulated count reaches it; without one, stop at a page shorter than \<open>pageSize\<close> or at
  the hundredth page.
\<close>

definition dh_stop_rule :: "int option \<Rightarrow> nat \<Rightarrow> nat \<Rightarrow> nat \<Rightarrow> bool" where
  "dh_stop_rule declared accumulated pageLen pageNum =
     (case declared of
        Some t \<Rightarrow> int accumulated \<ge> t
      | None \<Rightarrow> pageLen < dh_pageSize \<or> pageNum \<ge> 100)"

subsection \<open>UniviewAPI.queryAllResources (uniview/api.js)\<close>

record 'a query_result =
  InfoList :: "'a list option"
  TotalRowNum :: "int option"

record 'a query_response =
  Result :: "'a query_result option"

record 'a all_resources =
  all_ErrCode :: int
  all_InfoList :: "'a list"
  all_TotalRowNum :: nat
  all_PageFirstRowNumber :: nat
  all_PageRowNum :: nat

definition queryResources ::
  "(nat \<Rightarrow> nat \<Rightarrow> 'b thrown + 'a query_response) \<Rightarrow> string option \<Rightarrow> nat \<Rightarrow> nat
     \<Rightarrow> 'b thrown + 'a query_response" where
  "queryResources get org pageFirstRowNumber pageRowNum =
     (if \<not> truthy_str org then Inl (Camera (ParameterError ''org''))
      else get pageFirstRowNumber pageRowNum)"

partial_function (option) queryAllResources_loop ::
  "(nat \<Rightarrow> nat \<Rightarrow> 'b thrown + 'a query_response) \<Rightarrow> string option \<Rightarrow> nat \<Rightarrow> 'a list \<Rightarrow> nat
     \<Rightarrow> ('b thrown + 'a list) option"
where
  "queryAllResources_loop get org pageSize allItems currentPage =
     (case queryResources get org (currentPage * pageSize) pageSize of
        Inl err \<Rightarrow> Some (Inl err)
      | Inr response \<Rightarrow>
          (let items = (case Result response of
                          None \<Rightarrow> []
                        | Some r \<Rightarrow> (case InfoList r of None \<Rightarrow> [] | Some l \<Rightarrow> l));
               allItems' = allItems @ items;
               declaredTotal = (case Result response of
                          None \<Rightarrow> 0
                        | Some r \<Rightarrow> (case TotalRowNum r of None \<Rightarrow> 0 | Some t \<Rightarrow> t))
           in if int (length allItems') \<ge> declaredTotal \<or> length items = 0
              then Some (Inr allItems')
              else queryAllResources_loop get org pageSize allItems' (currentPage + 1)))"

definition queryAllResources ::
  "(nat \<Rightarrow> nat \<Rightarrow> 'b thrown + 'a query_response) \<Rightarrow> string option \<Rightarrow> nat option
     \<Rightarrow> ('b thrown + 'a all_resources) option" where
  "queryAllResources get org pageSizeOption =
     (let pageSize = (case pageSizeOption of None \<Rightarrow> 200 | Some p \<Rightarrow> p)
      in map_option
           (map_sum id (\<lambda>allItems.
              \<lparr> all_ErrCode = 0, all_InfoList = allItems, all_TotalRowNum = length allItems,
                all_PageFirstRowNumber = 0, all_PageRowNum = length allItems \<rparr>))
           (queryAllResources_loop get org pageSize [] 0))"

text \<open>
  The rule by which the Uniview loop stops: the accumulated count has reached the reported
  total (a missing total counts as 0), or the page is empty.
\<close>

definition uv_stop_rule :: "int option \<Rightarrow> nat \<Rightarrow> nat \<Rightarrow> bool" where
  "uv_stop_rule declared accumulated pageLen =
     (int accumulated \<ge> (case declared of Some t \<Rightarrow> t | None \<Rightarrow> 0) \<or> pageLen = 0)"


section \<open>Properties of the signing strategies\<close>

lemma key_header_before_nonce: "''x-ca-key:'' @ a < ''x-ca-nonce:'' @ b"
  by simp

lemma nonce_header_before_timestamp: "''x-ca-nonce:'' @ a < ''x-ca-timestamp:'' @ b"
  by simp

lemma key_header_before_timestamp: "''x-ca-key:'' @ a < ''x-ca-timestamp:'' @ b"
  by simp

lemma custom_headers_sorted:
  "sort [''x-ca-key:'' @ k, ''x-ca-nonce:'' @ n, ''x-ca-timestamp:'' @ t]
     = [''x-ca-key:'' @ k, ''x-ca-nonce:'' @ n, ''x-ca-timestamp:'' @ t]"
proof -
  have "sorted [''x-ca-key:'' @ k, ''x-ca-nonce:'' @ n, ''x-ca-timestamp:'' @ t]"
    using key_header_before_nonce [of k n] nonce_header_before_timestamp [of n t]
      key_header_before_timestamp [of k t]
    by (simp add: less_imp_le)
  then show ?thesis
    by (rule sorted_sort_id)
qed

lemma buildSignatureString_layout:
  "buildSignatureString this meth url body timestamp nonce =
     join ''\<newline>''
       [toUpperCase meth, ''application/json'', ''application/json'',
        ''x-ca-key:'' @ appKey this, ''x-ca-nonce:'' @ nonce, ''x-ca-timestamp:'' @ timestamp,
        (if startsWithSlash url then url else ''/'' @ url)]"
  unfolding buildSignatureString_def Let_def custom_headers_sorted by simp

lemma verifySignature_accepts_generated:
  "verifySignature hmac this meth url body timestamp nonce
     (generateSignature hmac this (buildSignatureString this meth url body' timestamp nonce))"
  by (simp add: verifySignature_def buildSignatureString_def)

text \<open>
  Claim C7.  For every username, password and access code, the login signature of the
  Uniview authenticator is \<open>MD5(base64(username) + accessCode + MD5(password))\<close>, and the
  login payload carries the plain username, the access code and that signature.
\<close>

theorem uniview_login_signature:
  "calculateLoginSignature md5 (base64 (auth_username this)) accessCode (md5 (auth_password this))
      = md5 (base64 (auth_username this) @ accessCode @ md5 (auth_password this))
   \<and> buildLoginData md5 base64 this accessCode =
       \<lparr> UserName = auth_username this,
         AccessCode = accessCode,
         LoginSignature = md5 (base64 (auth_username this) @ accessCode @ md5 (auth_password this)) \<rparr>"
  by (simp add: buildLoginData_def calculateLoginSignature_def)

text \<open>
  Claim C8.  HMAC signing is deterministic: two authenticators holding the same credentials,
  given the same method, path, body, timestamp and nonce, build the same canonical string,
  which is METHOD, content type, accept, the custom headers in lexicographic order and the
  path, joined by newlines; hence they produce the same signature.
\<close>

theorem hmac_signing_deterministic:
  assumes "appKey a1 = appKey a2" and "appSecret a1 = appSecret a2"
  shows "buildSignatureString a1 meth url body timestamp nonce
           = buildSignatureString a2 meth url body timestamp nonce
       \<and> buildSignatureString a1 meth url body timestamp nonce
           = join ''\<newline>''
               ([toUpperCase meth, ''application/json'', ''application/json'']
                @ sort [''x-ca-key:'' @ appKey a1, ''x-ca-nonce:'' @ nonce,
                        ''x-ca-timestamp:'' @ timestamp]
                @ [if startsWithSlash url then url else ''/'' @ url])
       \<and> sort [''x-ca-key:'' @ appKey a1, ''x-ca-nonce:'' @ nonce, ''x-ca-timestamp:'' @ timestamp]
           = [''x-ca-key:'' @ appKey a1, ''x-ca-nonce:'' @ nonce, ''x-ca-timestamp:'' @ timestamp]
       \<and> generateSignature hmac a1 (buildSignatureString a1 meth url body timestamp nonce)
           = generateSignature hmac a2 (buildSignatureString a2 meth url body timestamp nonce)
       \<and> X_Ca_Signature (generateAuthHeaders stringify hmac a1 now nonce meth url reqBody)
           = X_Ca_Signature (generateAuthHeaders stringify hmac a2 now nonce meth url reqBody)"
proof -
  have same: "buildSignatureString a1 m u b t n = buildSignatureString a2 m u b t n" for m u b t n
    using assms by (simp add: buildSignatureString_def)
  have layout: "buildSignatureString a1 meth url body timestamp nonce
           = join ''\<newline>''
               ([toUpperCase meth, ''application/json'', ''application/json'']
                @ sort [''x-ca-key:'' @ appKey a1, ''x-ca-nonce:'' @ nonce,
                        ''x-ca-timestamp:'' @ timestamp]
                @ [if startsWithSlash url then url else ''/'' @ url])"
    by (simp add: buildSignatureString_def Let_def)
  have sig: "generateSignature hmac a1 d = generateSignature hmac a2 d" for d
    using assms by (simp add: generateSignature_def)
  have hdr: "X_Ca_Signature (generateAuthHeaders stringify hmac a1 now nonce meth url reqBody)
           = X_Ca_Signature (generateAuthHeaders stringify hmac a2 now nonce meth url reqBody)"
    by (simp add: generateAuthHeaders_def Let_def same sig)
  from same layout sig hdr custom_headers_sorted show ?thesis
    by simp
qed

theorem hmac_signing_deterministic_witness:
  "appKey \<lparr>appKey = ''k1'', appSecret = ''s3cret'', hik_debug = False\<rparr>
     = appKey \<lparr>appKey = ''k1'', appSecret = ''s3cret'', hik_debug = True\<rparr>
   \<and> appSecret \<lparr>appKey = ''k1'', appSecret = ''s3cret'', hik_debug = False\<rparr>
     = appSecret \<lparr>appKey = ''k1'', appSecret = ''s3cret'', hik_debug = True\<rparr>
   \<and> buildSignatureString \<lparr>appKey = ''k1'', appSecret = ''s3cret'', hik_debug = False\<rparr>
         ''post'' ''artemis/api'' ''{}'' ''1700000000000'' ''n-1''
     = buildSignatureString \<lparr>appKey = ''k1'', appSecret = ''s3cret'', hik_debug = True\<rparr>
         ''post'' ''artemis/api'' ''{}'' ''1700000000000'' ''n-1''
   \<and> buildSignatureString \<lparr>appKey = ''k1'', appSecret = ''s3cret'', hik_debug = False\<rparr>
         ''post'' ''artemis/api'' ''{}'' ''1700000000000'' ''n-1''
     = ''POST\<newline>application/json\<newline>application/json\<newline>x-ca-key:k1\<newline>x-ca-nonce:n-1\<newline>x-ca-timestamp:1700000000000\<newline>/artemis/api''"
proof -
  let ?a1 = "\<lparr>appKey = ''k1'', appSecret = ''s3cret'', hik_debug = False\<rparr>"
  let ?a2 = "\<lparr>appKey = ''k1'', appSecret = ''s3cret'', hik_debug = True\<rparr>"
  have k: "appKey ?a1 = appKey ?a2" and s: "appSecret ?a1 = appSecret ?a2"
    by simp_all
  note det = hmac_signing_deterministic [OF k s, of "''post''" "''artemis/api''" "''{}''"
      "''1700000000000''" "''n-1''" "\<lambda>k d. k @ d" "\<lambda>u::unit. []" 0 BodyAbsent]
  have same: "buildSignatureString ?a1 ''post'' ''artemis/api'' ''{}'' ''1700000000000'' ''n-1''
     = buildSignatureString ?a2 ''post'' ''artemis/api'' ''{}'' ''1700000000000'' ''n-1''"
    using det by (rule conjunct1)
  have up: "toUpperCase ''post'' = ''POST''"
    by (simp add: toUpperCase_def upper_char_def char_of_eq_iff)
  have "buildSignatureString ?a1 ''post'' ''artemis/api'' ''{}'' ''1700000000000'' ''n-1''
     = ''POST\<newline>application/json\<newline>application/json\<newline>x-ca-key:k1\<newline>x-ca-nonce:n-1\<newline>x-ca-timestamp:1700000000000\<newline>/artemis/api''"
    using det [THEN conjunct2, THEN conjunct1] det [THEN conjunct2, THEN conjunct2, THEN conjunct1]
    by (simp add: up startsWithSlash_def)
  with k s same show ?thesis
    by (intro conjI)
qed

text \<open>
  Claim C10.  The HMAC signature of the Hikvision authenticator does not depend on the request
  body: for any two bodies and the same method, path, clock reading, nonce and credentials,
  the canonical string and the generated headers (signature included) are the same; the
  canonical string holds the method, content type, accept, the three custom headers and the
  path, and no part of the body.
\<close>

theorem hmac_signature_body_independent:
  "buildSignatureString this meth url bodyStr1 timestamp nonce
     = buildSignatureString this meth url bodyStr2 timestamp nonce
   \<and> buildSignatureString this meth url bodyStr1 timestamp nonce
     = join ''\<newline>''
         [toUpperCase meth, ''application/json'', ''application/json'',
          ''x-ca-key:'' @ appKey this, ''x-ca-nonce:'' @ nonce, ''x-ca-timestamp:'' @ timestamp,
          (if startsWithSlash url then url else ''/'' @ url)]
   \<and> generateAuthHeaders stringify hmac this now uuid meth url body1
     = generateAuthHeaders stringify hmac this now uuid meth url body2"
proof -
  have indep: "buildSignatureString this meth url bodyStr1 timestamp nonce
     = buildSignatureString this meth url bodyStr2 timestamp nonce"
    by (simp add: buildSignatureString_def)
  have hdrs: "generateAuthHeaders stringify hmac this now uuid meth url body1
     = generateAuthHeaders stringify hmac this now uuid meth url body2"
    by (simp add: generateAuthHeaders_def Let_def buildSignatureString_def)
  show ?thesis
    using indep hdrs buildSignatureString_layout [of this meth url bodyStr1 timestamp nonce]
    by (intro conjI)
qed

section \<open>Properties of the pagination aggregators\<close>

lemma concat_pages_step:
  "n \<le> j \<Longrightarrow> concat (map pages [n..<Suc j]) = pages n @ concat (map pages [Suc n..<Suc j])"
  using upt_conv_Cons [of n "Suc j"] by (simp del: upt_Suc)

lemma dh_loop_returns_at_first_stop:
  fixes pages :: "nat \<Rightarrow> 'a list" and tot :: "nat \<Rightarrow> int option"
  assumes "n \<le> k"
    and ok: "\<And>j. n \<le> j \<Longrightarrow> j \<le> k \<Longrightarrow>
          f j dh_pageSize = Inr \<lparr>page_success = True, page_data = Some \<lparr>pageData = Some (pages j), totalRows = tot j\<rparr>\<rparr>"
    and cont: "\<And>j. n \<le> j \<Longrightarrow> j < k \<Longrightarrow>
          \<not> dh_stop_rule (tot j) (length (acc @ concat (map pages [n..<Suc j]))) (length (pages j)) j"
    and stop: "dh_stop_rule (tot k) (length (acc @ concat (map pages [n..<Suc k]))) (length (pages k)) k"
  shows "getAllOrganizations_loop f acc n = Some (Inr (acc @ concat (map pages [n..<Suc k])))"
  using assms
proof (induction "k - n" arbitrary: n acc)
  case 0
  then have nk: "n = k" by simp
  from "0.prems"(2) [of k] nk
  have fk: "f k dh_pageSize = Inr \<lparr>page_success = True, page_data = Some \<lparr>pageData = Some (pages k), totalRows = tot k\<rparr>\<rparr>"
    by simp
  from "0.prems"(4) nk have "dh_stop_rule (tot k) (length (acc @ pages k)) (length (pages k)) k"
    by simp
  then show ?case
    unfolding nk
    by (subst getAllOrganizations_loop.simps)
      (auto simp add: fk dh_stop_rule_def Let_def split: option.splits)
next
  case (Suc m)
  then have lt: "n < k" by simp
  from Suc.prems(2) [of n] lt
  have fn: "f n dh_pageSize = Inr \<lparr>page_success = True, page_data = Some \<lparr>pageData = Some (pages n), totalRows = tot n\<rparr>\<rparr>"
    by simp
  from Suc.prems(3) [of n] lt
  have nostop: "\<not> dh_stop_rule (tot n) (length (acc @ pages n)) (length (pages n)) n"
    by simp
  have step: "getAllOrganizations_loop f acc n = getAllOrganizations_loop f (acc @ pages n) (Suc n)"
    using nostop
    by (subst getAllOrganizations_loop.simps)
      (auto simp add: fn dh_stop_rule_def Let_def split: option.splits)
  have IH: "getAllOrganizations_loop f (acc @ pages n) (Suc n)
      = Some (Inr ((acc @ pages n) @ concat (map pages [Suc n..<Suc k])))"
  proof (rule Suc.hyps(1))
    show "m = k - Suc n" using Suc.hyps(2) by simp
    show "Suc n \<le> k" using lt by simp
    show "f j dh_pageSize = Inr \<lparr>page_success = True, page_data = Some \<lparr>pageData = Some (pages j), totalRows = tot j\<rparr>\<rparr>"
      if "Suc n \<le> j" "j \<le> k" for j
      using Suc.prems(2) [of j] that by simp
    show "\<not> dh_stop_rule (tot j) (length ((acc @ pages n) @ concat (map pages [Suc n..<Suc j]))) (length (pages j)) j"
      if "Suc n \<le> j" "j < k" for j
      using Suc.prems(3) [of j] that concat_pages_step [of n j pages] by (simp del: upt_Suc)
    show "dh_stop_rule (tot k) (length ((acc @ pages n) @ concat (map pages [Suc n..<Suc k]))) (length (pages k)) k"
      using Suc.prems(4) lt concat_pages_step [of n k pages] by (simp del: upt_Suc)
  qed
  show ?case
    using step IH lt concat_pages_step [of n k pages] by (simp del: upt_Suc)
qed

text \<open>
  A vendor that answers every page request with an empty page and a declared total of 1:
  the accumulated count never reaches the total.
\<close>

definition vendor_total_never_reached :: "nat \<Rightarrow> nat \<Rightarrow> 'b thrown + nat org_page" where
  "vendor_total_never_reached pageNum pageSize =
     Inr \<lparr>page_success = True, page_data = Some \<lparr>pageData = Some [], totalRows = Some 1\<rparr>\<rparr>"

lemma never_aux:
  assumes "getAllOrganizations_loop f acc n = Some r"
  shows "\<not> (f = vendor_total_never_reached \<and> acc = [])"
proof (rule getAllOrganizations_loop.raw_induct
    [where P = "\<lambda>f acc n r. \<not> (f = vendor_total_never_reached \<and> acc = [])", OF _ assms])
  fix loop :: "(nat \<Rightarrow> nat \<Rightarrow> 'a thrown + nat org_page) \<Rightarrow> nat list \<Rightarrow> nat \<Rightarrow> ('a thrown + nat list) option"
  fix f acc n r
  assume IH: "\<And>a b c y. loop a b c = Some y \<Longrightarrow> \<not> (a = vendor_total_never_reached \<and> b = [])"
  assume step: "(case f n dh_pageSize of
        Inl e \<Rightarrow> Some (Inl e)
      | Inr result \<Rightarrow>
          if \<not> page_success result then Some (Inl (PlainError ''fetching the organization page failed''))
          else (case page_data result of
                  None \<Rightarrow> Some (Inl (PlainError ''the interface returned no data''))
                | Some d \<Rightarrow>
                   (case pageData d of
                      None \<Rightarrow> Some (Inl (PlainError ''pageData is not an array''))
                    | Some pd \<Rightarrow>
                       (let allOrgs' = acc @ pd in
                        case totalRows d of
                          Some declaredTotal \<Rightarrow>
                            if int (length allOrgs') \<ge> declaredTotal then Some (Inr allOrgs')
                            else loop f allOrgs' (n + 1)
                        | None \<Rightarrow>
                            if length pd < dh_pageSize then Some (Inr allOrgs')
                            else if n \<ge> 100 then Some (Inr allOrgs')
                            else loop f allOrgs' (n + 1))))) = Some r"
  show "\<not> (f = vendor_total_never_reached \<and> acc = [])"
  proof
    assume "f = vendor_total_never_reached \<and> acc = []"
    then have f: "f = vendor_total_never_reached" and acc: "acc = []" by simp_all
    from step have "loop f [] (n + 1) = Some r"
      by (simp add: f acc vendor_total_never_reached_def)
    with IH f show False by blast
  qed
qed

lemma never: "getAllOrganizations vendor_total_never_reached = None"
  by (rule ccontr) (auto simp: getAllOrganizations_def dest: never_aux)


lemma dh_loop_no_total_terminates_100:
  assumes no_total: "\<And>j r d. j \<le> 100 \<Longrightarrow> g j dh_pageSize = Inr r \<Longrightarrow> page_data r = Some d \<Longrightarrow> totalRows d = None"
    and "n \<le> 100"
  shows "\<exists>r. getAllOrganizations_loop g acc n = Some r"
  using assms(2)
proof (induction "100 - n" arbitrary: n acc)
  case 0
  then have n: "n = 100" by simp
  show ?case
    unfolding n using no_total [of 100]
    by (subst getAllOrganizations_loop.simps) (auto simp: Let_def split: sum.splits option.splits)
next
  case (Suc m)
  then have lt: "n < 100" by simp
  have IH: "\<exists>r. getAllOrganizations_loop g acc' (n + 1) = Some r" for acc'
    using Suc.hyps(1) [of "n + 1" acc'] Suc.hyps(2) lt by simp
  show ?case
    using no_total [of n] lt IH
    by (subst getAllOrganizations_loop.simps) (auto simp: Let_def split: sum.splits option.splits)
qed

lemma dh_loop_ignores_pages_beyond_100:
  assumes agree: "\<And>j. j \<le> 100 \<Longrightarrow> g' j dh_pageSize = g j dh_pageSize"
    and no_total: "\<And>j r d. j \<le> 100 \<Longrightarrow> g j dh_pageSize = Inr r \<Longrightarrow> page_data r = Some d \<Longrightarrow> totalRows d = None"
    and "n \<le> 100"
  shows "getAllOrganizations_loop g' acc n = getAllOrganizations_loop g acc n"
  using assms(3)
proof (induction "100 - n" arbitrary: n acc)
  case 0
  then have n: "n = 100" by simp
  have "getAllOrganizations_loop g' acc 100
      = (case g 100 dh_pageSize of
           Inl e \<Rightarrow> Some (Inl e)
         | Inr result \<Rightarrow>
             if \<not> page_success result then Some (Inl (PlainError ''fetching the organization page failed''))
             else (case page_data result of
                     None \<Rightarrow> Some (Inl (PlainError ''the interface returned no data''))
                   | Some d \<Rightarrow>
                      (case pageData d of
                         None \<Rightarrow> Some (Inl (PlainError ''pageData is not an array''))
                       | Some pd \<Rightarrow> Some (Inr (acc @ pd)))))"
    using no_total [of 100] agree [of 100]
    by (subst getAllOrganizations_loop.simps) (auto simp: Let_def split: sum.splits option.splits)
  also have "\<dots> = getAllOrganizations_loop g acc 100"
    using no_total [of 100]
    by (subst getAllOrganizations_loop.simps) (auto simp: Let_def split: sum.splits option.splits)
  finally show ?case
    unfolding n .
next
  case (Suc m)
  then have lt: "n < 100" by simp
  have IH: "getAllOrganizations_loop g' acc' (n + 1) = getAllOrganizations_loop g acc' (n + 1)" for acc'
    using Suc.hyps(1) [of "n + 1" acc'] Suc.hyps(2) lt by simp
  have "getAllOrganizations_loop g' acc n
      = (case g n dh_pageSize of
           Inl e \<Rightarrow> Some (Inl e)
         | Inr result \<Rightarrow>
             if \<not> page_success result then Some (Inl (PlainError ''fetching the organization page failed''))
             else (case page_data result of
                     None \<Rightarrow> Some (Inl (PlainError ''the interface returned no data''))
                   | Some d \<Rightarrow>
                      (case pageData d of
                         None \<Rightarrow> Some (Inl (PlainError ''pageData is not an array''))
                       | Some pd \<Rightarrow>
                           if length pd < dh_pageSize then Some (Inr (acc @ pd))
                           else getAllOrganizations_loop g (acc @ pd) (n + 1))))"
    using no_total [of n] agree [of n] lt IH
    by (subst getAllOrganizations_loop.simps) (auto simp: Let_def split: sum.splits option.splits)
  also have "\<dots> = getAllOrganizations_loop g acc n"
    using no_total [of n] lt
    by (subst getAllOrganizations_loop.simps) (auto simp: Let_def split: sum.splits option.splits)
  finally show ?case .
qed

lemma uv_loop_returns_at_first_stop:
  fixes pages :: "nat \<Rightarrow> 'a list" and tot :: "nat \<Rightarrow> int option"
  assumes "n \<le> k"
    and org: "truthy_str org"
    and ok: "\<And>j. n \<le> j \<Longrightarrow> j \<le> k \<Longrightarrow>
          get (j * pageSize) pageSize = Inr \<lparr>Result = Some \<lparr>InfoList = Some (pages j), TotalRowNum = tot j\<rparr>\<rparr>"
    and cont: "\<And>j. n \<le> j \<Longrightarrow> j < k \<Longrightarrow>
          \<not> uv_stop_rule (tot j) (length (acc @ concat (map pages [n..<Suc j]))) (length (pages j))"
    and stop: "uv_stop_rule (tot k) (length (acc @ concat (map pages [n..<Suc k]))) (length (pages k))"
  shows "queryAllResources_loop get org pageSize acc n = Some (Inr (acc @ concat (map pages [n..<Suc k])))"
  using assms
proof (induction "k - n" arbitrary: n acc)
  case 0
  then have nk: "n = k" by simp
  from "0.prems"(3) [of k] nk
  have fk: "get (k * pageSize) pageSize = Inr \<lparr>Result = Some \<lparr>InfoList = Some (pages k), TotalRowNum = tot k\<rparr>\<rparr>"
    by simp
  from "0.prems"(5) nk have "uv_stop_rule (tot k) (length (acc @ pages k)) (length (pages k))"
    by simp
  then show ?case
    unfolding nk
    by (subst queryAllResources_loop.simps)
      (auto simp add: fk org queryResources_def uv_stop_rule_def Let_def split: option.splits)
next
  case (Suc m)
  then have lt: "n < k" by simp
  from Suc.prems(3) [of n] lt
  have fn: "get (n * pageSize) pageSize = Inr \<lparr>Result = Some \<lparr>InfoList = Some (pages n), TotalRowNum = tot n\<rparr>\<rparr>"
    by simp
  from Suc.prems(4) [of n] lt
  have nostop: "\<not> uv_stop_rule (tot n) (length (acc @ pages n)) (length (pages n))"
    by simp
  have step: "queryAllResources_loop get org pageSize acc n
      = queryAllResources_loop get org pageSize (acc @ pages n) (Suc n)"
    using nostop
    by (subst queryAllResources_loop.simps)
      (auto simp add: fn org queryResources_def uv_stop_rule_def Let_def split: option.splits)
  have IH: "queryAllResources_loop get org pageSize (acc @ pages n) (Suc n)
      = Some (Inr ((acc @ pages n) @ concat (map pages [Suc n..<Suc k])))"
  proof (rule Suc.hyps(1))
    show "m = k - Suc n" using Suc.hyps(2) by simp
    show "Suc n \<le> k" using lt by simp
    show "truthy_str org" by (rule org)
    show "get (j * pageSize) pageSize = Inr \<lparr>Result = Some \<lparr>InfoList = Some (pages j), TotalRowNum = tot j\<rparr>\<rparr>"
      if "Suc n \<le> j" "j \<le> k" for j
      using Suc.prems(3) [of j] that by simp
    show "\<not> uv_stop_rule (tot j) (length ((acc @ pages n) @ concat (map pages [Suc n..<Suc j]))) (length (pages j))"
      if "Suc n \<le> j" "j < k" for j
      using Suc.prems(4) [of j] that concat_pages_step [of n j pages] by (simp del: upt_Suc)
    show "uv_stop_rule (tot k) (length ((acc @ pages n) @ concat (map pages [Suc n..<Suc k]))) (length (pages k))"
      using Suc.prems(5) lt concat_pages_step [of n k pages] by (simp del: upt_Suc)
  qed
  show ?case
    using step IH lt concat_pages_step [of n k pages] by (simp del: upt_Suc)
qed

lemma uv_loop_without_total_returns_first_page:
  assumes "truthy_str org"
    and "get (n * pageSize) pageSize = Inr \<lparr>Result = Some \<lparr>InfoList = Some items, TotalRowNum = None\<rparr>\<rparr>"
  shows "queryAllResources_loop get org pageSize acc n = Some (Inr (acc @ items))"
  using assms
  by (subst queryAllResources_loop.simps) (simp add: queryResources_def Let_def)


lemma pages_from_1_prefix:
  "j \<le> length ps \<Longrightarrow> map (\<lambda>i. ps ! (i - 1)) [1..<Suc j] = take j ps"
proof (induction j)
  case 0
  then show ?case by simp
next
  case (Suc j)
  then have "map (\<lambda>i. ps ! (i - 1)) [1..<Suc j] = take j ps" and "j < length ps"
    by simp_all
  then show ?case
    by (simp add: take_Suc_conv_app_nth)
qed

lemma pages_from_0_prefix:
  "j \<le> length ps \<Longrightarrow> map (\<lambda>i. ps ! i) [0..<j] = take j ps"
proof (induction j)
  case 0
  then show ?case by simp
next
  case (Suc j)
  then have "map (\<lambda>i. ps ! i) [0..<j] = take j ps" and "j < length ps"
    by simp_all
  then show ?case
    by (simp add: take_Suc_conv_app_nth)
qed

text \<open>
  Claim C5, as amended.  The Dahua aggregator returns at the first page at which the stop
  rule of the specification holds (with a declared total: the accumulated count has reached
  it; without one: the page is shorter than \<open>pageSize\<close>, or it is page 100), and its result is
  the concatenation of the pages up to that one.  When no page among the first 100 reports a
  numeric total, the loop returns, and it never asks for a page beyond the hundredth.  The
  Uniview aggregator returns at the first page at which the accumulated count has reached the
  reported total (a missing total counts as 0) or which is empty.  Termination for a vendor
  whose declared total is never reached is not part of the statement.
\<close>

theorem pagination_stops_by_rule:
  fixes f g g' :: "nat \<Rightarrow> nat \<Rightarrow> 'b thrown + 'a org_page"
    and get :: "nat \<Rightarrow> nat \<Rightarrow> 'c thrown + 'd query_response"
  assumes "1 \<le> k"
    and "\<And>j. 1 \<le> j \<Longrightarrow> j \<le> k \<Longrightarrow>
          f j dh_pageSize = Inr \<lparr>page_success = True, page_data = Some \<lparr>pageData = Some (pages j), totalRows = tot j\<rparr>\<rparr>"
    and "\<And>j. 1 \<le> j \<Longrightarrow> j < k \<Longrightarrow>
          \<not> dh_stop_rule (tot j) (length (concat (map pages [1..<Suc j]))) (length (pages j)) j"
    and "dh_stop_rule (tot k) (length (concat (map pages [1..<Suc k]))) (length (pages k)) k"
    and "\<And>j r d. j \<le> 100 \<Longrightarrow> g j dh_pageSize = Inr r \<Longrightarrow> page_data r = Some d \<Longrightarrow> totalRows d = None"
    and "\<And>j. j \<le> 100 \<Longrightarrow> g' j dh_pageSize = g j dh_pageSize"
    and "truthy_str org"
    and "\<And>j. j \<le> m \<Longrightarrow>
          get (j * pageSize) pageSize
            = Inr \<lparr>Result = Some \<lparr>InfoList = Some (upages j), TotalRowNum = utot j\<rparr>\<rparr>"
    and "\<And>j. j < m \<Longrightarrow>
          \<not> uv_stop_rule (utot j) (length (concat (map upages [0..<Suc j]))) (length (upages j))"
    and "uv_stop_rule (utot m) (length (concat (map upages [0..<Suc m]))) (length (upages m))"
  shows "getAllOrganizations f = Some (Inr (concat (map pages [1..<Suc k])))
       \<and> getAllOrganizations g \<noteq> None
       \<and> getAllOrganizations g' = getAllOrganizations g
       \<and> queryAllResources get org (Some pageSize)
           = Some (Inr \<lparr> all_ErrCode = 0,
                          all_InfoList = concat (map upages [0..<Suc m]),
                          all_TotalRowNum = length (concat (map upages [0..<Suc m])),
                          all_PageFirstRowNumber = 0,
                          all_PageRowNum = length (concat (map upages [0..<Suc m])) \<rparr>)"
proof -
  have dh: "getAllOrganizations f = Some (Inr (concat (map pages [1..<Suc k])))"
    unfolding getAllOrganizations_def
    using dh_loop_returns_at_first_stop [of 1 k f pages tot "[]"] assms(1-4)
    by (simp del: upt_Suc)
  have halts: "getAllOrganizations g \<noteq> None"
    unfolding getAllOrganizations_def
    using dh_loop_no_total_terminates_100 [of g 1 "[]"] assms(5) by auto
  have same: "getAllOrganizations g' = getAllOrganizations g"
    unfolding getAllOrganizations_def
    using dh_loop_ignores_pages_beyond_100 [of g' g 1 "[]"] assms(5,6) by simp
  have "queryAllResources_loop get org pageSize [] 0 = Some (Inr ([] @ concat (map upages [0..<Suc m])))"
    using assms(7-10) by (intro uv_loop_returns_at_first_stop) (simp_all del: upt_Suc)
  then have uv: "queryAllResources get org (Some pageSize)
           = Some (Inr \<lparr> all_ErrCode = 0,
                          all_InfoList = concat (map upages [0..<Suc m]),
                          all_TotalRowNum = length (concat (map upages [0..<Suc m])),
                          all_PageFirstRowNumber = 0,
                          all_PageRowNum = length (concat (map upages [0..<Suc m])) \<rparr>)"
    by (simp add: queryAllResources_def del: upt_Suc)
  from dh halts same uv show ?thesis
    by (intro conjI)
qed

text \<open>
  Claim C6.  When the vendor serves the pages \<open>ps\<close> in order and declares the total \<open>T\<close> on
  each, the accumulated count stays below \<open>T\<close> before the last page and reaches it with the
  last page, then both aggregators return exactly the concatenation of the pages, in order
  (nothing dropped, nothing repeated); the Uniview loop, which also stops at an empty page,
  does so when no page before the last is empty.
\<close>

theorem declared_total_returns_all_pages:
  fixes ps :: "'a list list" and T :: int
    and f :: "nat \<Rightarrow> nat \<Rightarrow> 'b thrown + 'a org_page"
    and get :: "nat \<Rightarrow> nat \<Rightarrow> 'c thrown + 'a query_response"
  assumes "ps \<noteq> []"
    and dh_serves: "\<And>i. i < length ps \<Longrightarrow>
          f (Suc i) dh_pageSize = Inr \<lparr>page_success = True, page_data = Some \<lparr>pageData = Some (ps ! i), totalRows = Some T\<rparr>\<rparr>"
    and uv_serves: "\<And>i. i < length ps \<Longrightarrow>
          get (i * pageSize) pageSize = Inr \<lparr>Result = Some \<lparr>InfoList = Some (ps ! i), TotalRowNum = Some T\<rparr>\<rparr>"
    and org: "truthy_str org"
    and below: "\<And>i. Suc i < length ps \<Longrightarrow> int (length (concat (take (Suc i) ps))) < T"
    and reached: "T \<le> int (length (concat ps))"
  shows "getAllOrganizations f = Some (Inr (concat ps))
       \<and> ((\<forall>i. Suc i < length ps \<longrightarrow> ps ! i \<noteq> []) \<longrightarrow>
            queryAllResources get org (Some pageSize)
              = Some (Inr \<lparr> all_ErrCode = 0,
                             all_InfoList = concat ps,
                             all_TotalRowNum = length (concat ps),
                             all_PageFirstRowNumber = 0,
                             all_PageRowNum = length (concat ps) \<rparr>))"
proof -
  let ?k = "length ps"
  from assms(1) have k: "1 \<le> ?k" by (cases ps) simp_all
  let ?pages = "\<lambda>j. ps ! (j - 1)"
  have pre: "concat (map ?pages [1..<Suc j]) = concat (take j ps)" if "j \<le> ?k" for j
    using pages_from_1_prefix [OF that] by (simp del: upt_Suc)
  have "getAllOrganizations_loop f [] 1 = Some (Inr ([] @ concat (map ?pages [1..<Suc ?k])))"
  proof (rule dh_loop_returns_at_first_stop)
    show "1 \<le> ?k" by (rule k)
    show "f j dh_pageSize = Inr \<lparr>page_success = True, page_data = Some \<lparr>pageData = Some (?pages j), totalRows = Some T\<rparr>\<rparr>"
      if "1 \<le> j" "j \<le> ?k" for j
      using dh_serves [of "j - 1"] that by simp
    show "\<not> dh_stop_rule (Some T) (length ([] @ concat (map ?pages [1..<Suc j]))) (length (?pages j)) j"
      if "1 \<le> j" "j < ?k" for j
    proof -
      from that have "Suc (j - 1) < ?k" and "Suc (j - 1) = j" by simp_all
      with below [of "j - 1"] have "int (length (concat (take j ps))) < T" by simp
      with pre [of j] that show ?thesis by (simp add: dh_stop_rule_def del: upt_Suc)
    qed
    show "dh_stop_rule (Some T) (length ([] @ concat (map ?pages [1..<Suc ?k]))) (length (?pages ?k)) ?k"
      using reached pre [of ?k] by (simp add: dh_stop_rule_def del: upt_Suc)
  qed
  with pre [of ?k] have dh: "getAllOrganizations f = Some (Inr (concat ps))"
    by (simp add: getAllOrganizations_def del: upt_Suc)
  have uv: "queryAllResources get org (Some pageSize)
              = Some (Inr \<lparr> all_ErrCode = 0,
                             all_InfoList = concat ps,
                             all_TotalRowNum = length (concat ps),
                             all_PageFirstRowNumber = 0,
                             all_PageRowNum = length (concat ps) \<rparr>)"
    if nonempty: "\<forall>i. Suc i < length ps \<longrightarrow> ps ! i \<noteq> []"
  proof -
    let ?m = "?k - 1"
    have upre: "concat (map (\<lambda>i. ps ! i) [0..<Suc j]) = concat (take (Suc j) ps)" if "j \<le> ?m" for j
      using pages_from_0_prefix [of "Suc j" ps] that k by (simp del: upt_Suc)
    have "queryAllResources_loop get org pageSize [] 0
        = Some (Inr ([] @ concat (map (\<lambda>i. ps ! i) [0..<Suc ?m])))"
    proof (rule uv_loop_returns_at_first_stop)
      show "0 \<le> ?m" by simp
      show "truthy_str org" by (rule org)
      show "get (j * pageSize) pageSize = Inr \<lparr>Result = Some \<lparr>InfoList = Some (ps ! j), TotalRowNum = Some T\<rparr>\<rparr>"
        if "0 \<le> j" "j \<le> ?m" for j
        using uv_serves [of j] that k by simp
      show "\<not> uv_stop_rule (Some T) (length ([] @ concat (map (\<lambda>i. ps ! i) [0..<Suc j]))) (length (ps ! j))"
        if "0 \<le> j" "j < ?m" for j
      proof -
        from that have "Suc j < ?k" by simp
        with below [of j] nonempty have "int (length (concat (take (Suc j) ps))) < T" and "ps ! j \<noteq> []"
          by simp_all
        with upre [of j] that show ?thesis by (simp add: uv_stop_rule_def del: upt_Suc)
      qed
      show "uv_stop_rule (Some T) (length ([] @ concat (map (\<lambda>i. ps ! i) [0..<Suc ?m]))) (length (ps ! ?m))"
        using reached upre [of ?m] k by (simp add: uv_stop_rule_def del: upt_Suc)
    qed
    with upre [of ?m] k show ?thesis
      by (simp add: queryAllResources_def del: upt_Suc)
  qed
  from dh uv show ?thesis by blast
qed


theorem pagination_stops_by_rule_witness:
  "getAllOrganizations
      (\<lambda>j sz. Inr \<lparr>page_success = True,
                       page_data = Some \<lparr>pageData = Some (replicate dh_pageSize j), totalRows = None\<rparr>\<rparr>
         :: unit thrown + nat org_page)
     = Some (Inr (concat (map (\<lambda>j. replicate dh_pageSize j) [1..<Suc 100])))
   \<and> getAllOrganizations
      (\<lambda>j sz. Inr \<lparr>page_success = True,
                       page_data = Some \<lparr>pageData = Some (replicate dh_pageSize j), totalRows = None\<rparr>\<rparr>
         :: unit thrown + nat org_page)
     \<noteq> None
   \<and> getAllOrganizations
      (\<lambda>j sz. if j \<le> 100
                then Inr \<lparr>page_success = True,
                       page_data = Some \<lparr>pageData = Some (replicate dh_pageSize j), totalRows = None\<rparr>\<rparr>
                else Inl TypeError :: unit thrown + nat org_page)
     = getAllOrganizations
      (\<lambda>j sz. Inr \<lparr>page_success = True,
                       page_data = Some \<lparr>pageData = Some (replicate dh_pageSize j), totalRows = None\<rparr>\<rparr>)
   \<and> queryAllResources
      (\<lambda>first rows. Inr \<lparr>Result = Some \<lparr>InfoList = Some [first, first + 1], TotalRowNum = Some 5\<rparr>\<rparr>
         :: unit thrown + nat query_response)
      (Some ''iccsid'') (Some 2)
     = Some (Inr \<lparr> all_ErrCode = 0,
                    all_InfoList = concat (map (\<lambda>j. [j * 2, j * 2 + 1]) [0..<Suc 2]),
                    all_TotalRowNum = length (concat (map (\<lambda>j. [j * 2, j * 2 + 1]) [0..<Suc 2])),
                    all_PageFirstRowNumber = 0,
                    all_PageRowNum = length (concat (map (\<lambda>j. [j * 2, j * 2 + 1]) [0..<Suc 2])) \<rparr>)"
proof -
  let ?f = "\<lambda>j sz. Inr \<lparr>page_success = True,
                       page_data = Some \<lparr>pageData = Some (replicate dh_pageSize j), totalRows = None\<rparr>\<rparr>
         :: unit thrown + nat org_page"
  let ?g' = "\<lambda>j sz. if j \<le> 100
                then Inr \<lparr>page_success = True,
                       page_data = Some \<lparr>pageData = Some (replicate dh_pageSize j), totalRows = None\<rparr>\<rparr>
                else Inl TypeError :: unit thrown + nat org_page"
  let ?get = "\<lambda>first rows. Inr \<lparr>Result = Some \<lparr>InfoList = Some [first, first + 1], TotalRowNum = Some 5\<rparr>\<rparr>
         :: unit thrown + nat query_response"
  have h1: "(1::nat) \<le> 100" by simp
  have h2: "?f j dh_pageSize = Inr \<lparr>page_success = True,
       page_data = Some \<lparr>pageData = Some (replicate dh_pageSize j), totalRows = (\<lambda>j. None) j\<rparr>\<rparr>" for j
    by simp
  have h3: "\<not> dh_stop_rule ((\<lambda>j. None) j)
       (length (concat (map (\<lambda>j. replicate dh_pageSize j) [1..<Suc j])))
       (length (replicate dh_pageSize j)) j" if "j < 100" for j
    using that by (simp add: dh_stop_rule_def)
  have h4: "dh_stop_rule ((\<lambda>j. None) (100::nat))
       (length (concat (map (\<lambda>j. replicate dh_pageSize j) [1..<Suc 100])))
       (length (replicate dh_pageSize (100::nat))) 100"
    by (simp add: dh_stop_rule_def)
  have h5: "totalRows d = None" if "?f j dh_pageSize = Inr r" "page_data r = Some d" for j r d
    using that by auto
  have h6: "?g' j dh_pageSize = ?f j dh_pageSize" if "j \<le> 100" for j
    using that by simp
  have h7: "truthy_str (Some ''iccsid'')" by simp
  have h8: "?get (j * 2) 2
       = Inr \<lparr>Result = Some \<lparr>InfoList = Some ((\<lambda>j. [j * 2, j * 2 + 1]) j), TotalRowNum = (\<lambda>j. Some 5) j\<rparr>\<rparr>"
    for j by simp
  have h9: "\<not> uv_stop_rule ((\<lambda>j. Some 5) j)
       (length (concat (map (\<lambda>j. [j * 2, j * 2 + 1]) [0..<Suc j])))
       (length ((\<lambda>j. [j * 2, j * 2 + 1]) j))" if "j < 2" for j
  proof -
    from that have "j = 0 \<or> j = 1" by auto
    then show ?thesis by (auto simp: uv_stop_rule_def)
  qed
  have h10: "uv_stop_rule ((\<lambda>j. Some 5) (2::nat))
       (length (concat (map (\<lambda>j. [j * 2, j * 2 + 1]) [0..<Suc 2])))
       (length ((\<lambda>j. [j * 2, j * 2 + 1]) (2::nat)))"
    by (simp add: uv_stop_rule_def eval_nat_numeral)
  show ?thesis
    by (rule pagination_stops_by_rule [where k = 100 and f = ?f and pages = "\<lambda>j. replicate dh_pageSize j"
      and tot = "\<lambda>j. None" and g = ?f and g' = ?g' and org = "Some ''iccsid''" and m = 2
      and get = ?get and pageSize = 2 and upages = "\<lambda>j. [j * 2, j * 2 + 1]" and utot = "\<lambda>j. Some 5"])
      (use h1 h2 h3 h4 h5 h6 h7 h8 h9 h10 in blast)+
qed

text \<open>
  Claim C5 as stated fails: against the vendor \<open>vendor_total_never_reached\<close> the Dahua loop
  never returns.
\<close>

theorem pagination_total_never_reached:
  "getAllOrganizations vendor_total_never_reached = None"
  by (rule ccontr) (auto simp: getAllOrganizations_def dest: never_aux)

theorem declared_total_returns_all_pages_witness:
  "getAllOrganizations
      (\<lambda>j sz. Inr \<lparr>page_success = True,
                    page_data = Some \<lparr>pageData = Some (map (Pair j) [0..<50]), totalRows = Some 150\<rparr>\<rparr>
         :: unit thrown + (nat \<times> nat) org_page)
     = Some (Inr (concat [map (Pair 1) [0..<50], map (Pair 2) [0..<50], map (Pair 3) [0..<50]]))
   \<and> queryAllResources
      (\<lambda>first rows. Inr \<lparr>Result = Some \<lparr>InfoList = Some (map (Pair (Suc (first div 50))) [0..<50]),
                                          TotalRowNum = Some 150\<rparr>\<rparr>
         :: unit thrown + (nat \<times> nat) query_response)
      (Some ''iccsid'') (Some 50)
     = Some (Inr \<lparr> all_ErrCode = 0,
           all_InfoList = concat [map (Pair 1) [0..<50], map (Pair 2) [0..<50], map (Pair 3) [0..<50]],
           all_TotalRowNum = length (concat [map (Pair 1) [0..<50], map (Pair 2) [0..<50],
                                             map (Pair 3) [0..<50]] :: (nat \<times> nat) list),
           all_PageFirstRowNumber = 0,
           all_PageRowNum = length (concat [map (Pair 1) [0..<50], map (Pair 2) [0..<50],
                                             map (Pair 3) [0..<50]] :: (nat \<times> nat) list) \<rparr>)
   \<and> length (concat [map (Pair 1) [0..<50], map (Pair 2) [0..<50], map (Pair 3) [0..<50]]
               :: (nat \<times> nat) list) = 150
   \<and> distinct (concat [map (Pair 1) [0..<50], map (Pair 2) [0..<50], map (Pair 3) [0..<50]]
               :: (nat \<times> nat) list)"
proof -
  let ?ps = "[map (Pair (1::nat)) [0..<50], map (Pair 2) [0..<50], map (Pair 3) [0..<50]]"
  let ?f = "\<lambda>j sz. Inr \<lparr>page_success = True,
                    page_data = Some \<lparr>pageData = Some (map (Pair j) [0..<50]), totalRows = Some 150\<rparr>\<rparr>
         :: unit thrown + (nat \<times> nat) org_page"
  let ?get = "\<lambda>first rows. Inr \<lparr>Result = Some \<lparr>InfoList = Some (map (Pair (Suc (first div 50))) [0..<50]),
                                          TotalRowNum = Some 150\<rparr>\<rparr>
         :: unit thrown + (nat \<times> nat) query_response"
  have cases3: "i = 0 \<or> i = 1 \<or> i = 2" if "i < length ?ps" for i
    using that by auto
  have h1: "?ps \<noteq> []" by simp
  have h2: "?f (Suc i) dh_pageSize
      = Inr \<lparr>page_success = True, page_data = Some \<lparr>pageData = Some (?ps ! i), totalRows = Some 150\<rparr>\<rparr>"
    if "i < length ?ps" for i
    using cases3 [OF that] by (elim disjE) (simp_all del: upt.simps upt_rec_numeral)
  have h3: "?get (i * 50) 50
      = Inr \<lparr>Result = Some \<lparr>InfoList = Some (?ps ! i), TotalRowNum = Some 150\<rparr>\<rparr>"
    if "i < length ?ps" for i
    using cases3 [OF that] by (elim disjE) (simp_all del: upt.simps upt_rec_numeral)
  have h4: "truthy_str (Some ''iccsid'')" by simp
  have h5: "int (length (concat (take (Suc i) ?ps))) < 150" if "Suc i < length ?ps" for i
  proof -
    from that have "i = 0 \<or> i = 1" by auto
    then show ?thesis by (elim disjE) (simp_all del: upt.simps upt_rec_numeral)
  qed
  have h6: "(150::int) \<le> int (length (concat ?ps))"
    by (simp del: upt.simps upt_rec_numeral)
  have h7: "\<forall>i. Suc i < length ?ps \<longrightarrow> ?ps ! i \<noteq> []"
  proof (intro allI impI)
    fix i assume "Suc i < length ?ps"
    then have "i = 0 \<or> i = 1" by auto
    then show "?ps ! i \<noteq> []" by (elim disjE) (simp_all del: upt.simps upt_rec_numeral)
  qed
  have len: "length (concat ?ps) = 150"
    by (simp del: upt.simps upt_rec_numeral)
  have dist: "distinct (concat ?ps)"
    by (auto simp add: distinct_map inj_on_def simp del: upt.simps upt_rec_numeral)
  have main: "getAllOrganizations ?f = Some (Inr (concat ?ps))
       \<and> ((\<forall>i. Suc i < length ?ps \<longrightarrow> ?ps ! i \<noteq> []) \<longrightarrow>
            queryAllResources ?get (Some ''iccsid'') (Some 50)
              = Some (Inr \<lparr> all_ErrCode = 0,
                             all_InfoList = concat ?ps,
                             all_TotalRowNum = length (concat ?ps),
                             all_PageFirstRowNumber = 0,
                             all_PageRowNum = length (concat ?ps) \<rparr>))"
  proof (rule declared_total_returns_all_pages [where T = 150])
    show "?ps \<noteq> []" by (rule h1)
    show "?f (Suc i) dh_pageSize
      = Inr \<lparr>page_success = True, page_data = Some \<lparr>pageData = Some (?ps ! i), totalRows = Some 150\<rparr>\<rparr>"
      if "i < length ?ps" for i by (rule h2 [OF that])
    show "?get (i * 50) 50
      = Inr \<lparr>Result = Some \<lparr>InfoList = Some (?ps ! i), TotalRowNum = Some 150\<rparr>\<rparr>"
      if "i < length ?ps" for i by (rule h3 [OF that])
    show "truthy_str (Some ''iccsid'')" by (rule h4)
    show "int (length (concat (take (Suc i) ?ps))) < 150" if "Suc i < length ?ps" for i
      by (rule h5 [OF that])
    show "(150::int) \<le> int (length (concat ?ps))" by (rule h6)
  qed
  from main have dh: "getAllOrganizations ?f = Some (Inr (concat ?ps))"
    by (rule conjunct1)
  from main h7 have uv: "queryAllResources ?get (Some ''iccsid'') (Some 50)
              = Some (Inr \<lparr> all_ErrCode = 0,
                             all_InfoList = concat ?ps,
                             all_TotalRowNum = length (concat ?ps),
                             all_PageFirstRowNumber = 0,
                             all_PageRowNum = length (concat ?ps) \<rparr>)"
    by (rule conjunct2 [THEN mp])
  from dh uv len dist show ?thesis
    by (intro conjI)
qed


end
